theory Spec2Isabelle
  imports Main "HOL-Library.Word" "HOL-Library.Signed_Division"
begin

section \<open>The Arduino core of \<^verbatim>\<open>cores/arduino/Arduino.cpp\<close>\<close>

text \<open>
  The core is compiled by avr-gcc (\<^verbatim>\<open>Arduino.h\<close> includes \<^verbatim>\<open>avr/io.h\<close>, and \<^verbatim>\<open>main\<close> is
  "required by AVR"), where \<^verbatim>\<open>int\<close> and \<^verbatim>\<open>unsigned int\<close> have 16 bits and \<^verbatim>\<open>long\<close> and
  \<^verbatim>\<open>unsigned long\<close> have 32. Every C integer is a word of its width: \<open>+\<close>, \<open>-\<close> and \<open>*\<close>
  wrap around modulo \<open>2 ^ w\<close>. For the unsigned types that is the language's rule; for
  the signed ones, whose overflow the language leaves undefined, it is what the target's
  two's-complement instructions compute. \<open>sint\<close> reads a signed value and \<open>unat\<close> an
  unsigned one. Division is the one arithmetic step that can fail: \<^verbatim>\<open>/\<close> and \<^verbatim>\<open>%\<close> have
  no result for a zero divisor, nor for the least \<^verbatim>\<open>long\<close> divided by \<open>-1\<close>, whose
  quotient is no \<^verbatim>\<open>long\<close>; in both cases the step is an error of the model.
\<close>

subsection \<open>Machine integers\<close>

type_synonym uint8_t = "8 word"
type_synonym int16 = "16 word"
type_synonym uint16 = "16 word"
type_synonym long = "32 word"
type_synonym ulong = "32 word"

text \<open>
  \<open>DivisionByZero\<close> and \<open>QuotientOverflow\<close> are the two failures of a division;
  \<open>InvalidPin\<close> is the error the specification names for a pin without descriptor.
\<close>

datatype error = DivisionByZero | QuotientOverflow | InvalidPin

text \<open>
  C's \<^verbatim>\<open>/\<close> and \<^verbatim>\<open>%\<close> on \<^verbatim>\<open>long\<close>. Where they have a result it truncates towards zero
  (\<open>sdiv\<close> and \<open>smod\<close> on \<open>int\<close>).
\<close>

definition div_long :: "long \<Rightarrow> long \<Rightarrow> error + long" where
  "div_long a b =
     (if b = 0 then Inl DivisionByZero
      else if sint a = - 2147483648 \<and> sint b = - 1 then Inl QuotientOverflow
      else Inr (word_of_int (sint a sdiv sint b)))"

definition rem_long :: "long \<Rightarrow> long \<Rightarrow> error + long" where
  "rem_long a b =
     (if b = 0 then Inl DivisionByZero
      else if sint a = - 2147483648 \<and> sint b = - 1 then Inl QuotientOverflow
      else Inr (word_of_int (sint a smod sint b)))"

subsection \<open>Constants of \<^verbatim>\<open>Arduino.h\<close>\<close>

definition HIGH :: "'a::len word" where "HIGH = 1"
definition LOW :: "'a::len word" where "LOW = 0"

definition INPUT :: uint8_t where "INPUT = 0"
definition OUTPUT :: uint8_t where "OUTPUT = 1"
definition INPUT_PULLUP :: uint8_t where "INPUT_PULLUP = 2"

definition LED_BUILTIN :: uint8_t where "LED_BUILTIN = 13"

subsection \<open>State, errors and results\<close>

text \<open>
  The only mutable state the core reaches is the generator behind \<^verbatim>\<open>srand\<close> and
  \<^verbatim>\<open>rand\<close>, of some type \<open>'g\<close> owned by the C library. The \<^verbatim>\<open>nop\<close> instructions that the
  busy-wait loops execute are counted in \<open>nops\<close>, so that the time a loop burns is part of
  the state as well.
\<close>

record 'g hw =
  prng :: 'g
  nops :: nat

text \<open>
  An operation of the core takes the state and returns an error or its result with the
  new state.
\<close>

type_synonym ('a, 'g) outcome = "error + 'a \<times> 'g hw"

definition and_then ::
    "('a, 'g) outcome \<Rightarrow> ('a \<Rightarrow> 'g hw \<Rightarrow> ('b, 'g) outcome) \<Rightarrow> ('b, 'g) outcome" where
  "and_then r f = (case r of Inl e \<Rightarrow> Inl e | Inr (a, s) \<Rightarrow> f a s)"

subsection \<open>The application driver: \<^verbatim>\<open>main\<close>\<close>

text \<open>
  \<^verbatim>\<open>setup\<close> and \<^verbatim>\<open>loop\<close> are the user's functions, here any two functions on the user's
  state \<open>'u\<close>. Each call that \<^verbatim>\<open>main\<close> makes is logged in front of the state. The loop
  \<^verbatim>\<open>for (;;) { loop(); }\<close> has no condition and no \<^verbatim>\<open>break\<close>: \<open>for_ever\<close> runs it for as
  many iterations as there is fuel and answers \<open>None\<close>, still running, when the fuel is
  used up; no equation produces the \<^verbatim>\<open>return 0\<close> that follows the loop in the source.
\<close>

datatype call = Call_setup | Call_loop

type_synonym 'u run = "call list \<times> 'u"

definition invoke :: "call \<Rightarrow> ('u \<Rightarrow> 'u) \<Rightarrow> 'u run \<Rightarrow> 'u run" where
  "invoke c f r = (fst r @ [c], f (snd r))"

fun for_ever :: "nat \<Rightarrow> ('u \<Rightarrow> 'u) \<Rightarrow> 'u run \<Rightarrow> int16 option \<times> 'u run" where
  "for_ever 0 loop r = (None, r)"
| "for_ever (Suc fuel) loop r = for_ever fuel loop (invoke Call_loop loop r)"

definition main :: "nat \<Rightarrow> ('u \<Rightarrow> 'u) \<Rightarrow> ('u \<Rightarrow> 'u) \<Rightarrow> 'u \<Rightarrow> int16 option \<times> 'u run" where
  "main fuel setup loop u = for_ever fuel loop (invoke Call_setup setup ([], u))"

subsection \<open>Digital and analog I/O\<close>

text \<open>
  The five pin functions are stubs that cast their arguments to \<^verbatim>\<open>void\<close>. They have no
  table of pins and no way to report a failure, so each returns normally on every pin.
\<close>

definition pinMode :: "uint8_t \<Rightarrow> uint8_t \<Rightarrow> 'g hw \<Rightarrow> (unit, 'g) outcome" where
  "pinMode pin mode s = Inr ((), s)"

definition digitalWrite :: "uint8_t \<Rightarrow> uint8_t \<Rightarrow> 'g hw \<Rightarrow> (unit, 'g) outcome" where
  "digitalWrite pin val s = Inr ((), s)"

definition digitalRead :: "uint8_t \<Rightarrow> 'g hw \<Rightarrow> (int16, 'g) outcome" where
  "digitalRead pin s = Inr (LOW, s)"

definition analogRead :: "uint8_t \<Rightarrow> 'g hw \<Rightarrow> (int16, 'g) outcome" where
  "analogRead pin s = Inr (0, s)"

definition analogWrite :: "uint8_t \<Rightarrow> int16 \<Rightarrow> 'g hw \<Rightarrow> (unit, 'g) outcome" where
  "analogWrite pin val s = Inr ((), s)"

text \<open>\<^verbatim>\<open>pinMode(pin, OUTPUT); digitalWrite(pin, val); return digitalRead(pin);\<close>\<close>

definition write_then_read :: "uint8_t \<Rightarrow> uint8_t \<Rightarrow> 'g hw \<Rightarrow> (int16, 'g) outcome" where
  "write_then_read pin val s =
     and_then (pinMode pin OUTPUT s) (\<lambda>_ s1.
     and_then (digitalWrite pin val s1) (\<lambda>_ s2.
     digitalRead pin s2))"

subsection \<open>Timing\<close>

definition millis :: "'g hw \<Rightarrow> (ulong, 'g) outcome" where
  "millis s = Inr (0, s)"

definition micros :: "'g hw \<Rightarrow> (ulong, 'g) outcome" where
  "micros s = Inr (0, s)"

definition nop :: "'g hw \<Rightarrow> 'g hw" where
  "nop s = s\<lparr>nops := Suc (nops s)\<rparr>"

text \<open>
  \<^verbatim>\<open>for (T i = ...; i < bound; i++) { nop }\<close> for an unsigned type \<^verbatim>\<open>T\<close>, from the
  current value of \<^verbatim>\<open>i\<close>. It ends: while \<open>i < bound\<close> the increment does not wrap.
\<close>

function nop_loop :: "'a::len word \<Rightarrow> 'a word \<Rightarrow> 'g hw \<Rightarrow> 'g hw" where
  "nop_loop i bound s = (if i < bound then nop_loop (i + 1) bound (nop s) else s)"
  by pat_completeness auto
termination
proof (relation "measure (\<lambda>(i, bound, s). unat bound - unat i)")
  show "wf (measure (\<lambda>(i :: 'a word, bound :: 'a word, s :: 'g hw). unat bound - unat i))"
    by simp
next
  fix i bound :: "'a word" and s :: "'g hw"
  assume "i < bound"
  then have less: "unat i < unat bound"
    by (simp add: word_less_nat_alt)
  have "unat bound < 2 ^ LENGTH('a)"
    by (rule unsigned_less)
  with less have "unat i + 1 < 2 ^ LENGTH('a)"
    by linarith
  then have "unat i + unat (1 :: 'a word) < 2 ^ LENGTH('a)"
    by simp
  then have "unat (i + 1) = unat i + unat (1 :: 'a word)"
    by (simp only: unat_add_lem)
  with less show "((i + 1, bound, nop s), (i, bound, s))
      \<in> measure (\<lambda>(i, bound, s). unat bound - unat i)"
    by simp
qed

declare nop_loop.simps [simp del]

definition delay :: "ulong \<Rightarrow> 'g hw \<Rightarrow> (unit, 'g) outcome" where
  "delay ms s = Inr ((), nop_loop 0 (ms * 1000) s)"

definition delayMicroseconds :: "uint16 \<Rightarrow> 'g hw \<Rightarrow> (unit, 'g) outcome" where
  "delayMicroseconds us s = Inr ((), nop_loop 0 us s)"

text \<open>
  The time an operation takes as the core's own clock measures it:
  \<^verbatim>\<open>t1 = millis(); op(); t2 = millis();\<close> and the wraparound-safe difference \<open>t2 - t1\<close>.
\<close>

definition elapsed_millis :: "('g hw \<Rightarrow> (unit, 'g) outcome) \<Rightarrow> 'g hw \<Rightarrow> (ulong, 'g) outcome" where
  "elapsed_millis op s =
     and_then (millis s) (\<lambda>t1 s1.
     and_then (op s1) (\<lambda>_ s2.
     and_then (millis s2) (\<lambda>t2 s3.
     Inr (t2 - t1, s3))))"

subsection \<open>Random numbers\<close>

text \<open>
  \<^verbatim>\<open>srand\<close> and \<^verbatim>\<open>rand\<close> belong to the C library and are parameters: \<open>srand\<close> maps a seed
  (\<^verbatim>\<open>unsigned int\<close>) and a generator to the seeded generator, \<open>rand\<close> maps a generator to
  its next number (\<^verbatim>\<open>int\<close>) and the generator after it. \<^verbatim>\<open>randomSeed\<close> passes its
  \<^verbatim>\<open>unsigned long\<close> seed to \<^verbatim>\<open>srand\<close>, which converts it to \<^verbatim>\<open>unsigned int\<close>; \<^verbatim>\<open>rand() % howbig\<close>
  converts the \<^verbatim>\<open>int\<close> to \<^verbatim>\<open>long\<close> with its sign.
\<close>

definition randomSeed :: "(uint16 \<Rightarrow> 'g \<Rightarrow> 'g) \<Rightarrow> ulong \<Rightarrow> 'g hw \<Rightarrow> (unit, 'g) outcome" where
  "randomSeed srand seed s =
     (if seed \<noteq> 0 then Inr ((), s\<lparr>prng := srand (ucast seed) (prng s)\<rparr>)
      else Inr ((), s))"

definition random_long :: "('g \<Rightarrow> int16 \<times> 'g) \<Rightarrow> long \<Rightarrow> 'g hw \<Rightarrow> (long, 'g) outcome" where
  "random_long rand howbig s =
     (if howbig = 0 then Inr (0, s)
      else case rand (prng s) of
             (r, g) \<Rightarrow>
               (case rem_long (scast r) howbig of
                  Inl e \<Rightarrow> Inl e
                | Inr v \<Rightarrow> Inr (v, s\<lparr>prng := g\<rparr>)))"

definition random_range ::
    "('g \<Rightarrow> int16 \<times> 'g) \<Rightarrow> long \<Rightarrow> long \<Rightarrow> 'g hw \<Rightarrow> (long, 'g) outcome" where
  "random_range rand howsmall howbig s =
     (if sint howsmall \<ge> sint howbig then Inr (howsmall, s)
      else and_then (random_long rand (howbig - howsmall) s) (\<lambda>v s'.
             Inr (v + howsmall, s')))"

subsection \<open>Math utilities\<close>

definition map_long :: "long \<Rightarrow> long \<Rightarrow> long \<Rightarrow> long \<Rightarrow> long \<Rightarrow> error + long" where
  "map_long x in_min in_max out_min out_max =
     (case div_long ((x - in_min) * (out_max - out_min)) (in_max - in_min) of
        Inl e \<Rightarrow> Inl e
      | Inr q \<Rightarrow> Inr (q + out_min))"

text \<open>
  The re-scaling in exact integer arithmetic with truncating division, as the
  specification words it; it has no value where the input range is empty.
\<close>

definition map_exact :: "int \<Rightarrow> int \<Rightarrow> int \<Rightarrow> int \<Rightarrow> int \<Rightarrow> int option" where
  "map_exact x in_min in_max out_min out_max =
     (if in_max - in_min = 0 then None
      else Some ((x - in_min) * (out_max - out_min) sdiv (in_max - in_min) + out_min))"

section \<open>Properties\<close>

subsection \<open>Words read as C integers\<close>

lemma sint_long_of_int:
  "- 2147483648 \<le> k \<Longrightarrow> k \<le> 2147483647 \<Longrightarrow> sint (word_of_int k :: long) = k"
  by (simp add: sint_sbintrunc' signed_take_bit_int_eq_self)

lemma sint_int16_bounds:
  fixes r :: int16
  shows "- 32768 \<le> sint r" and "sint r \<le> 32767"
  using sint_ge [of r] sint_lt [of r] by simp_all

lemma sint_long_bounds:
  fixes w :: long
  shows "- 2147483648 \<le> sint w" and "sint w \<le> 2147483647"
  using sint_ge [of w] sint_lt [of w] by simp_all

lemma sint_scast_int16:
  fixes r :: int16
  shows "sint (scast r :: long) = sint r"
  by (rule sint_up_scast) (simp add: is_up)

text \<open>The remainder of a non-negative dividend is non-negative, whatever the divisor's sign.\<close>

lemma smod_nonneg:
  fixes a b :: int
  assumes "0 \<le> a" and "b \<noteq> 0"
  shows "0 \<le> a smod b" and "a smod b \<le> a" and "a smod b < \<bar>b\<bar>"
proof -
  have eq: "a smod b = a mod \<bar>b\<bar>"
    using assms by (cases "a = 0") (simp_all add: signed_modulo_int_def)
  from assms show "0 \<le> a smod b"
    by (simp add: eq)
  from assms show "a smod b \<le> a"
    unfolding eq by (intro zmod_le_nonneg_dividend)
  from assms show "a smod b < \<bar>b\<bar>"
    by (simp add: eq)
qed

subsection \<open>The driver\<close>

lemma for_ever_trace:
  "for_ever fuel loop (cs, u) = (None, cs @ replicate fuel Call_loop, (loop ^^ fuel) u)"
proof (induction fuel arbitrary: cs u)
  case 0
  show ?case by simp
next
  case (Suc fuel)
  have "for_ever (Suc fuel) loop (cs, u) = for_ever fuel loop (cs @ [Call_loop], loop u)"
    by (simp add: invoke_def)
  also have "\<dots> = (None, (cs @ [Call_loop]) @ replicate fuel Call_loop, (loop ^^ fuel) (loop u))"
    by (rule Suc.IH)
  also have "\<dots> = (None, cs @ replicate (Suc fuel) Call_loop, (loop ^^ Suc fuel) u)"
    by (simp add: funpow_swap1 replicate_append_same)
  finally show ?case .
qed

text \<open>
  Claim C7. \<^verbatim>\<open>main\<close> calls \<^verbatim>\<open>setup\<close> exactly once, before every call of \<^verbatim>\<open>loop\<close>, and then
  calls \<^verbatim>\<open>loop\<close> for ever: whatever the fuel, \<^verbatim>\<open>main\<close> has not returned when it is used up,
  the calls made are one \<open>Call_setup\<close> followed by one \<open>Call_loop\<close> per iteration, and the
  user's state is that of \<^verbatim>\<open>setup\<close> followed by as many runs of \<^verbatim>\<open>loop\<close>.
\<close>

theorem main_setup_once_then_loop_forever:
  "main fuel setup loop u =
     (None, Call_setup # replicate fuel Call_loop, (loop ^^ fuel) (setup u))
   \<and> count_list (fst (snd (main fuel setup loop u))) Call_setup = 1"
proof -
  have eq: "main fuel setup loop u =
     (None, Call_setup # replicate fuel Call_loop, (loop ^^ fuel) (setup u))"
    by (simp add: main_def invoke_def for_ever_trace)
  have "count_list (replicate fuel Call_loop) Call_setup = 0"
    by (induction fuel) simp_all
  with eq show ?thesis by simp
qed

subsection \<open>Pins\<close>

text \<open>
  Claim C2, as the code has it. On every pin number, with or without a descriptor, each
  of the five pin operations returns normally and leaves the state as it was;
  \<^verbatim>\<open>digitalRead\<close> answers \<open>LOW\<close> and \<^verbatim>\<open>analogRead\<close> answers 0. None reports an error.
\<close>

theorem pin_operations_return_unchanged:
  "pinMode pin mode s = Inr ((), s)
   \<and> digitalWrite pin val s = Inr ((), s)
   \<and> digitalRead pin s = Inr (LOW, s)
   \<and> analogRead pin s = Inr (0, s)
   \<and> analogWrite pin duty s = Inr ((), s)"
  by (simp add: pinMode_def digitalWrite_def digitalRead_def analogRead_def analogWrite_def)

text \<open>
  Claim C2 as stated fails: pin 255 is no pin of the board (\<^verbatim>\<open>Arduino.h\<close> numbers the pins
  of the Uno up to \<^verbatim>\<open>A5 = 19\<close>), and none of the five operations fails with \<open>InvalidPin\<close>
  on it.
\<close>

theorem pin_operations_InvalidPin_counterexample:
  "pinMode 255 OUTPUT \<lparr>prng = (), nops = 0\<rparr> \<noteq> Inl InvalidPin
   \<and> digitalWrite 255 HIGH \<lparr>prng = (), nops = 0\<rparr> \<noteq> Inl InvalidPin
   \<and> digitalRead 255 \<lparr>prng = (), nops = 0\<rparr> \<noteq> Inl InvalidPin
   \<and> analogRead 255 \<lparr>prng = (), nops = 0\<rparr> \<noteq> Inl InvalidPin
   \<and> analogWrite 255 128 \<lparr>prng = (), nops = 0\<rparr> \<noteq> Inl InvalidPin"
  by (simp add: pinMode_def digitalWrite_def digitalRead_def analogRead_def analogWrite_def)

text \<open>
  Claim C3, as the code has it. On every pin, \<^verbatim>\<open>pinMode(pin, OUTPUT)\<close>, then
  \<^verbatim>\<open>digitalWrite(pin, val)\<close>, then \<^verbatim>\<open>digitalRead(pin)\<close> reads \<open>LOW\<close>, whichever level was
  written: a written \<open>LOW\<close> is read back, a written \<open>HIGH\<close> is not.
\<close>

theorem write_then_read_is_LOW:
  "write_then_read pin val s = Inr (LOW, s)"
  by (simp add: write_then_read_def and_then_def pinMode_def digitalWrite_def digitalRead_def)

text \<open>
  Claim C3 as stated fails on the built-in LED pin, an output pin of the board: after
  \<open>HIGH\<close> is written, the read returns \<open>LOW\<close>, not \<open>HIGH\<close>.
\<close>

theorem write_HIGH_read_back_counterexample:
  "write_then_read LED_BUILTIN HIGH \<lparr>prng = (), nops = 0\<rparr>
     = Inr (LOW, \<lparr>prng = (), nops = 0\<rparr>)
   \<and> write_then_read LED_BUILTIN HIGH \<lparr>prng = (), nops = 0\<rparr>
     \<noteq> Inr (HIGH, \<lparr>prng = (), nops = 0\<rparr>)"
  by (simp add: write_then_read_def and_then_def pinMode_def digitalWrite_def digitalRead_def
      LOW_def HIGH_def)

subsection \<open>Timing\<close>

text \<open>
  Claim C4. Take a call of \<^verbatim>\<open>millis\<close> in any state \<open>s\<close> and a later call in any state \<open>s'\<close>
  whatever, reached through whichever operations ran in between: both calls return, and
  the later value is not smaller than the earlier one.
\<close>

theorem millis_never_goes_back:
  "\<exists>t1 s1 t2 s2. millis s = Inr (t1, s1) \<and> millis s' = Inr (t2, s2) \<and> t1 \<le> t2"
  by (simp add: millis_def)

text \<open>The busy-wait loop executes one \<^verbatim>\<open>nop\<close> for each value of \<open>i\<close> below the bound.\<close>

lemma nop_loop_count:
  fixes i bound :: "'a::len word"
  shows "nop_loop i bound s = s\<lparr>nops := nops s + (unat bound - unat i)\<rparr>"
proof (induction i bound s rule: nop_loop.induct)
  case (1 i bound s)
  show ?case
  proof (cases "i < bound")
    case True
    then have less: "unat i < unat bound"
      by (simp add: word_less_nat_alt)
    have "unat bound < 2 ^ LENGTH('a)"
      by (rule unsigned_less)
    with less have "unat i + 1 < 2 ^ LENGTH('a)"
      by linarith
    then have "unat i + unat (1 :: 'a word) < 2 ^ LENGTH('a)"
      by simp
    then have inc: "unat (i + 1) = unat i + unat (1 :: 'a word)"
      by (simp only: unat_add_lem)
    have "nop_loop i bound s = nop_loop (i + 1) bound (nop s)"
      using True by (subst nop_loop.simps) simp
    also have "\<dots> = (nop s)\<lparr>nops := nops (nop s) + (unat bound - unat (i + 1))\<rparr>"
      using True by (rule "1.IH")
    also have "\<dots> = s\<lparr>nops := nops s + (unat bound - unat i)\<rparr>"
      using less inc by (simp add: nop_def)
    finally show ?thesis .
  next
    case False
    then have "unat bound - unat i = 0"
      by (simp add: word_less_nat_alt)
    moreover have "nop_loop i bound s = s"
      using False by (subst nop_loop.simps) simp
    ultimately show ?thesis by simp
  qed
qed

text \<open>
  Claim C5. \<^verbatim>\<open>delay(0)\<close> and \<^verbatim>\<open>delayMicroseconds(0)\<close> return with the state they were called
  in: their loops, from 0 up to a bound of 0, execute no \<^verbatim>\<open>nop\<close> at all.
\<close>

theorem delay_zero_returns_at_once:
  "delay 0 s = Inr ((), s) \<and> delayMicroseconds 0 s = Inr ((), s)
   \<and> nop_loop (0 :: ulong) (0 * 1000) s = s \<and> nop_loop (0 :: uint16) 0 s = s"
  by (simp add: delay_def delayMicroseconds_def nop_loop_count)

text \<open>
  Claim C6, as the code has it. \<^verbatim>\<open>delay(ms)\<close> is a busy wait of a fixed count: for every
  \<open>ms\<close> up to 4294967, where \<open>ms * 1000\<close> fits an \<^verbatim>\<open>unsigned long\<close>, it executes \<open>1000 * ms\<close>
  iterations of the \<^verbatim>\<open>nop\<close> loop and changes nothing else. It does not consult \<^verbatim>\<open>millis\<close>,
  and on the core's own clock no time has passed when it returns.
\<close>

theorem delay_is_fixed_busy_wait:
  assumes "unat ms \<le> 4294967"
  shows "delay ms s = Inr ((), s\<lparr>nops := nops s + 1000 * unat ms\<rparr>)
    \<and> elapsed_millis (delay ms) s = Inr (0, s\<lparr>nops := nops s + 1000 * unat ms\<rparr>)"
proof -
  have "unat ms * unat (1000 :: ulong) < 2 ^ LENGTH(32)"
    using assms by simp
  then have "unat (ms * 1000) = unat ms * unat (1000 :: ulong)"
    by (simp only: unat_mult_lem)
  then have "delay ms s = Inr ((), s\<lparr>nops := nops s + 1000 * unat ms\<rparr>)"
    by (simp add: delay_def nop_loop_count)
  then show ?thesis
    by (simp add: elapsed_millis_def and_then_def millis_def)
qed

text \<open>The same at \<open>ms = 2\<close>: 2000 iterations from a fresh state.\<close>

theorem delay_is_fixed_busy_wait_witness:
  "unat (2 :: ulong) \<le> 4294967
   \<and> delay 2 \<lparr>prng = (), nops = 0\<rparr> = Inr ((), \<lparr>prng = (), nops = 2000\<rparr>)
   \<and> elapsed_millis (delay 2) \<lparr>prng = (), nops = 0\<rparr> = Inr (0, \<lparr>prng = (), nops = 2000\<rparr>)"
proof -
  have small: "unat (2 :: ulong) \<le> 4294967"
    by simp
  show ?thesis
    using small delay_is_fixed_busy_wait [OF small, of "\<lparr>prng = (), nops = 0\<rparr>"] by simp
qed

text \<open>
  Claim C6 as stated fails. \<^verbatim>\<open>delay(536870912)\<close> executes no iteration at all, as
  \<open>536870912 * 1000\<close> is 0 in an \<^verbatim>\<open>unsigned long\<close>, and returns at once like \<^verbatim>\<open>delay(0)\<close>; and
  across \<^verbatim>\<open>delay(1)\<close>, which runs 1000 iterations without polling any clock, the elapsed
  time that \<^verbatim>\<open>millis\<close> reports is 0, less than the 1 millisecond asked for.
\<close>

theorem delay_at_least_ms_counterexample:
  "delay 536870912 \<lparr>prng = (), nops = 0\<rparr> = Inr ((), \<lparr>prng = (), nops = 0\<rparr>)
   \<and> elapsed_millis (delay 1) \<lparr>prng = (), nops = 0\<rparr> = Inr (0, \<lparr>prng = (), nops = 1000\<rparr>)
   \<and> (0 :: ulong) < 1"
  by (simp add: delay_def elapsed_millis_def and_then_def millis_def nop_loop_count)

subsection \<open>Random numbers\<close>

text \<open>
  Claim C10. \<^verbatim>\<open>randomSeed(0)\<close> returns the state it was given, whatever \<^verbatim>\<open>srand\<close> would
  do, so \<^verbatim>\<open>random\<close> in either form gives after it what it gives without it; a seed other
  than 0 is passed to \<^verbatim>\<open>srand\<close>, and the generator is the one \<^verbatim>\<open>srand\<close> returns.
\<close>

theorem randomSeed_zero_is_noop:
  "randomSeed srand 0 s = Inr ((), s)
   \<and> and_then (randomSeed srand 0 s) (\<lambda>_. random_long rand howbig) = random_long rand howbig s
   \<and> and_then (randomSeed srand 0 s) (\<lambda>_. random_range rand howsmall howbig)
       = random_range rand howsmall howbig s
   \<and> (seed \<noteq> 0 \<longrightarrow>
        randomSeed srand seed s = Inr ((), s\<lparr>prng := srand (ucast seed) (prng s)\<rparr>))"
  by (simp add: randomSeed_def and_then_def)

text \<open>
  The same with a \<^verbatim>\<open>srand\<close> that adds the seed to a generator that is a number: seed 7
  moves the generator from 5 to 12, seed 0 leaves it at 5.
\<close>

theorem randomSeed_zero_is_noop_witness:
  "(7 :: ulong) \<noteq> 0
   \<and> randomSeed (\<lambda>seed g. unat seed + g) 7 \<lparr>prng = 5, nops = 0\<rparr>
       = Inr ((), \<lparr>prng = 12, nops = 0\<rparr>)
   \<and> randomSeed (\<lambda>seed g. unat seed + g) 0 \<lparr>prng = 5, nops = 0\<rparr>
       = Inr ((), \<lparr>prng = 5, nops = 0\<rparr>)"
  using randomSeed_zero_is_noop [where srand = "\<lambda>seed g. unat seed + g"
      and s = "\<lparr>prng = 5, nops = 0\<rparr>" and seed = 7]
  by simp

text \<open>What \<^verbatim>\<open>rand() % howbig\<close> is when \<^verbatim>\<open>rand()\<close> is not negative, as C requires of it.\<close>

lemma rem_long_rand:
  fixes r :: int16
  assumes "0 \<le> sint r" and "howbig \<noteq> 0"
  shows "\<exists>v. rem_long (scast r) howbig = Inr v \<and> sint v = sint r smod sint howbig"
proof -
  have nz: "sint howbig \<noteq> 0"
    using assms(2) by (simp add: signed_eq_0_iff)
  have "0 \<le> sint r smod sint howbig" and "sint r smod sint howbig \<le> sint r"
    using assms(1) nz by (rule smod_nonneg)+
  with sint_int16_bounds(2) [of r]
  have "sint (word_of_int (sint r smod sint howbig) :: long) = sint r smod sint howbig"
    by (intro sint_long_of_int) linarith+
  moreover have "sint (scast r :: long) \<noteq> - 2147483648"
    using assms(1) by (simp add: sint_scast_int16)
  then have "rem_long (scast r) howbig = Inr (word_of_int (sint r smod sint howbig))"
    using assms(2) by (simp add: rem_long_def sint_scast_int16)
  ultimately show ?thesis
    by (simp only: sum.inject simp_thms ex_simps)
qed

lemma random_long_run:
  assumes "0 \<le> sint (fst (rand (prng s)))" and "howbig \<noteq> 0"
  shows "\<exists>v. random_long rand howbig s = Inr (v, s\<lparr>prng := snd (rand (prng s))\<rparr>)
           \<and> sint v = sint (fst (rand (prng s))) smod sint howbig"
proof -
  obtain r g where rg: "rand (prng s) = (r, g)"
    by (cases "rand (prng s)")
  with assms obtain v where "rem_long (scast r) howbig = Inr v"
    and "sint v = sint r smod sint howbig"
    using rem_long_rand [of r howbig] by auto
  with assms(2) rg show ?thesis
    by (simp add: random_long_def)
qed

lemma random_long_in_range:
  assumes "0 \<le> sint (fst (rand (prng s)))" and "0 < sint howbig"
  shows "\<exists>v s'. random_long rand howbig s = Inr (v, s') \<and> 0 \<le> sint v \<and> sint v < sint howbig"
proof -
  let ?r = "fst (rand (prng s))"
  from assms(2) have nz: "howbig \<noteq> 0"
    by auto
  with assms(1) obtain v where run: "random_long rand howbig s = Inr (v, s\<lparr>prng := snd (rand (prng s))\<rparr>)"
    and v: "sint v = sint ?r smod sint howbig"
    using random_long_run by blast
  have "0 \<le> sint ?r smod sint howbig" and "sint ?r smod sint howbig < \<bar>sint howbig\<bar>"
    using assms by (intro smod_nonneg; simp)+
  with run v assms(2) show ?thesis
    by simp
qed

text \<open>
  In \<^verbatim>\<open>random(howsmall, howbig)\<close> the difference \<open>howbig - howsmall\<close> may exceed the largest
  \<^verbatim>\<open>long\<close> and wrap to a negative number. The remainder is then \<^verbatim>\<open>rand()\<close> itself or less,
  while the true distance of the bounds is at least \<open>2 ^ 31\<close>, so the sum stays below
  \<open>howbig\<close> in that case too.
\<close>

lemma random_range_in_range:
  assumes rand: "0 \<le> sint (fst (rand (prng s)))" and less: "sint howsmall < sint howbig"
  shows "\<exists>v s'. random_range rand howsmall howbig s = Inr (v, s')
           \<and> sint howsmall \<le> sint v \<and> sint v < sint howbig"
proof -
  let ?r = "fst (rand (prng s))"
  let ?diff = "howbig - howsmall"
  let ?m = "sint ?r smod sint ?diff"
  from less have "howbig \<noteq> howsmall"
    by auto
  then have nz: "?diff \<noteq> 0"
    by simp
  then have snz: "sint ?diff \<noteq> 0"
    by (simp add: signed_eq_0_iff)
  from rand nz obtain w
    where run: "random_long rand ?diff s = Inr (w, s\<lparr>prng := snd (rand (prng s))\<rparr>)"
    and m: "sint w = ?m"
    using random_long_run by blast
  have m0: "0 \<le> ?m" and mr: "?m \<le> sint ?r" and mb: "?m < \<bar>sint ?diff\<bar>"
    using rand snz by (rule smod_nonneg)+
  have below: "?m < sint howbig - sint howsmall"
  proof (cases "sint howbig - sint howsmall \<le> 2147483647")
    case True
    have "sint ?diff = signed_take_bit 31 (sint howbig - sint howsmall)"
      by (simp add: sint_word_diff)
    also have "\<dots> = sint howbig - sint howsmall"
      using True less by (intro signed_take_bit_int_eq_self) simp_all
    finally show ?thesis
      using mb less by simp
  next
    case False
    with mr sint_int16_bounds(2) [of ?r] show ?thesis
      by linarith
  qed
  have "sint (w + howsmall) = signed_take_bit 31 (?m + sint howsmall)"
    by (simp add: sint_word_ariths m)
  also have "\<dots> = ?m + sint howsmall"
    using m0 below sint_long_bounds [of howsmall] sint_long_bounds [of howbig]
    by (intro signed_take_bit_int_eq_self) simp_all
  finally have "sint (w + howsmall) = ?m + sint howsmall" .
  with m0 below show ?thesis
    using less run by (simp add: random_range_def and_then_def)
qed

text \<open>
  Claim C9. With a \<^verbatim>\<open>rand\<close> whose next number is not negative: \<^verbatim>\<open>random(0)\<close> is 0 and leaves
  the generator alone; for \<open>howbig > 0\<close>, \<^verbatim>\<open>random(howbig)\<close> returns a value from 0 up to but
  not including \<open>howbig\<close>; \<^verbatim>\<open>random(howsmall, howbig)\<close> returns \<open>howsmall\<close>, with the state
  unchanged, when \<open>howsmall \<ge> howbig\<close>, and a value from \<open>howsmall\<close> up to but not including
  \<open>howbig\<close> when \<open>howsmall < howbig\<close>.
\<close>

theorem random_within_bounds:
  assumes "0 \<le> sint (fst (rand (prng s)))"
  shows "random_long rand 0 s = Inr (0, s)
    \<and> (0 < sint howbig \<longrightarrow>
         (\<exists>v s'. random_long rand howbig s = Inr (v, s') \<and> 0 \<le> sint v \<and> sint v < sint howbig))
    \<and> (sint hi \<le> sint lo \<longrightarrow> random_range rand lo hi s = Inr (lo, s))
    \<and> (sint lo < sint hi \<longrightarrow>
         (\<exists>v s'. random_range rand lo hi s = Inr (v, s') \<and> sint lo \<le> sint v \<and> sint v < sint hi))"
proof (intro conjI impI)
  show "random_long rand 0 s = Inr (0, s)"
    by (simp add: random_long_def)
next
  assume "0 < sint howbig"
  with assms
  show "\<exists>v s'. random_long rand howbig s = Inr (v, s') \<and> 0 \<le> sint v \<and> sint v < sint howbig"
    by (rule random_long_in_range)
next
  assume "sint hi \<le> sint lo"
  then show "random_range rand lo hi s = Inr (lo, s)"
    by (simp add: random_range_def)
next
  assume "sint lo < sint hi"
  with assms
  show "\<exists>v s'. random_range rand lo hi s = Inr (v, s') \<and> sint lo \<le> sint v \<and> sint v < sint hi"
    by (rule random_range_in_range)
qed

text \<open>
  The same with a \<^verbatim>\<open>rand\<close> that always answers 12345: \<^verbatim>\<open>random(100)\<close>, the widest range
  there is, from the least \<^verbatim>\<open>long\<close> to 1, whose width wraps, and the empty range from 8
  to 3.
\<close>

theorem random_within_bounds_witness:
  "0 \<le> sint (fst ((\<lambda>g :: nat. (12345 :: int16, Suc g)) (prng \<lparr>prng = 0, nops = 0\<rparr>)))
   \<and> 0 < sint (100 :: long)
   \<and> (\<exists>v s'. random_long (\<lambda>g :: nat. (12345, Suc g)) 100 \<lparr>prng = 0, nops = 0\<rparr> = Inr (v, s')
         \<and> 0 \<le> sint v \<and> sint v < sint (100 :: long))
   \<and> sint (- 2147483648 :: long) < sint (1 :: long)
   \<and> (\<exists>v s'. random_range (\<lambda>g :: nat. (12345, Suc g)) (- 2147483648) 1 \<lparr>prng = 0, nops = 0\<rparr>
                = Inr (v, s')
         \<and> sint (- 2147483648 :: long) \<le> sint v \<and> sint v < sint (1 :: long))
   \<and> sint (3 :: long) \<le> sint (8 :: long)
   \<and> random_range (\<lambda>g :: nat. (12345, Suc g)) 8 3 \<lparr>prng = 0, nops = 0\<rparr>
        = Inr (8, \<lparr>prng = 0, nops = 0\<rparr>)"
proof -
  have nonneg:
    "0 \<le> sint (fst ((\<lambda>g :: nat. (12345 :: int16, Suc g)) (prng \<lparr>prng = 0, nops = 0\<rparr>)))"
    by simp
  have pos: "0 < sint (100 :: long)" and less: "sint (- 2147483648 :: long) < sint (1 :: long)"
    and geq: "sint (3 :: long) \<le> sint (8 :: long)"
    by simp_all
  note facts = random_within_bounds
    [where rand = "\<lambda>g :: nat. (12345, Suc g)" and s = "\<lparr>prng = 0, nops = 0\<rparr>"]
  from nonneg pos less geq
    facts [where howbig = 100 and lo = "- 2147483648" and hi = 1]
    facts [where howbig = 100 and lo = 8 and hi = 3]
  show ?thesis
    by simp
qed

subsection \<open>\<^verbatim>\<open>map\<close>\<close>

text \<open>
  Claim C1, as the code has it. For every \<open>x\<close> from \<open>-21474836\<close> to \<open>21474836\<close>, where
  \<open>x * 100\<close> fits a \<^verbatim>\<open>long\<close>, \<^verbatim>\<open>map(x, 0, 10, 0, 100)\<close> is the exact re-scaling with
  truncating division, which is \<open>10 * x\<close>: 50 for 5, 0 for 0, 100 for 10, and, beyond the
  input range, \<open>-10\<close> for \<open>-1\<close>.
\<close>

theorem map_0_10_0_100_exact:
  assumes "- 21474836 \<le> sint x" and "sint x \<le> 21474836"
  shows "(\<exists>r. map_long x 0 10 0 100 = Inr r
            \<and> map_exact (sint x) 0 10 0 100 = Some (sint r) \<and> sint r = 10 * sint x)
    \<and> map_long 5 0 10 0 100 = Inr 50
    \<and> map_long 0 0 10 0 100 = Inr 0
    \<and> map_long 10 0 10 0 100 = Inr 100
    \<and> map_long (- 1) 0 10 0 100 = Inr (- 10)"
proof -
  have "sint (x * 100) = signed_take_bit 31 (sint x * 100)"
    by (simp add: sint_word_mult)
  also have "\<dots> = sint x * 100"
    using assms by (simp add: signed_take_bit_int_eq_self)
  finally have prod: "sint (x * 100) = sint x * 100" .
  have quot: "sint x * 100 sdiv 10 = 10 * sint x"
    by (simp add: signed_divide_int_def sgn_mult abs_mult mult_sgn_abs flip: mult.assoc)
  have "div_long (x * 100) 10 = Inr (word_of_int (sint (x * 100) sdiv sint (10 :: long)))"
    by (simp add: div_long_def)
  also have "sint (x * 100) sdiv sint (10 :: long) = 10 * sint x"
    by (simp add: prod quot)
  finally have div: "div_long (x * 100) 10 = Inr (word_of_int (10 * sint x))" .
  have res: "sint (word_of_int (10 * sint x) :: long) = 10 * sint x"
    using assms by (intro sint_long_of_int) simp_all
  have "map_long x 0 10 0 100 = Inr (word_of_int (10 * sint x))"
    by (simp add: map_long_def div)
  moreover have "map_exact (sint x) 0 10 0 100 = Some (10 * sint x)"
    by (simp add: map_exact_def quot)
  ultimately have "\<exists>r. map_long x 0 10 0 100 = Inr r
      \<and> map_exact (sint x) 0 10 0 100 = Some (sint r) \<and> sint r = 10 * sint x"
    using res by simp
  moreover have "map_long 5 0 10 0 100 = Inr 50" and "map_long 0 0 10 0 100 = Inr 0"
    and "map_long 10 0 10 0 100 = Inr 100" and "map_long (- 1) 0 10 0 100 = Inr (- 10)"
    by (simp_all add: map_long_def div_long_def)
  ultimately show ?thesis
    by (simp only: simp_thms)
qed

text \<open>The same at \<open>x = -7\<close>, below the input range.\<close>

theorem map_0_10_0_100_exact_witness:
  "- 21474836 \<le> sint (- 7 :: long) \<and> sint (- 7 :: long) \<le> 21474836
   \<and> (\<exists>r. map_long (- 7) 0 10 0 100 = Inr r
          \<and> map_exact (sint (- 7 :: long)) 0 10 0 100 = Some (sint r)
          \<and> sint r = 10 * sint (- 7 :: long))"
proof -
  have lower: "- 21474836 \<le> sint (- 7 :: long)" and upper: "sint (- 7 :: long) \<le> 21474836"
    by simp_all
  from lower upper map_0_10_0_100_exact [OF lower upper] show ?thesis
    by (simp only: simp_thms)
qed

text \<open>
  Claim C1 as stated fails for large \<open>x\<close>: at \<open>x = 21474837\<close> the product \<open>x * 100\<close> is
  2147483700, more than the largest \<^verbatim>\<open>long\<close>, and \<^verbatim>\<open>map\<close> returns \<open>-214748359\<close> where the
  exact re-scaling is 214748370.
\<close>

theorem map_0_10_0_100_counterexample:
  "map_long 21474837 0 10 0 100 = Inr (- 214748359)
   \<and> map_exact (sint (21474837 :: long)) 0 10 0 100 = Some 214748370
   \<and> sint (- 214748359 :: long) \<noteq> 214748370"
  by (simp add: map_long_def div_long_def map_exact_def)

text \<open>
  When \<^verbatim>\<open>map\<close> fails, and how: it divides by zero exactly on an empty input range, and
  apart from that only the quotient of the least \<^verbatim>\<open>long\<close> by \<open>-1\<close> is missing.
\<close>

lemma map_long_DivisionByZero_iff:
  "map_long x in_min in_max out_min out_max = Inl DivisionByZero \<longleftrightarrow> in_max = in_min"
  by (simp add: map_long_def div_long_def split: sum.split)

lemma map_long_returns_iff:
  "(\<exists>r. map_long x in_min in_max out_min out_max = Inr r) \<longleftrightarrow>
     in_max \<noteq> in_min
     \<and> \<not> (sint ((x - in_min) * (out_max - out_min)) = - 2147483648
            \<and> sint (in_max - in_min) = - 1)"
  by (simp add: map_long_def div_long_def split: sum.split)

text \<open>
  Claim C8. \<^verbatim>\<open>map\<close> divides by \<open>in_max - in_min\<close> unguarded. When \<open>in_max\<close> differs from
  \<open>in_min\<close> the result is never the error of a division by zero; when they are equal it
  is that error; so wherever \<^verbatim>\<open>map\<close> returns a value, \<open>in_max\<close> differs from \<open>in_min\<close>.
\<close>

theorem map_defined_only_if_range_not_empty:
  "(in_max \<noteq> in_min \<longrightarrow> map_long x in_min in_max out_min out_max \<noteq> Inl DivisionByZero)
   \<and> (in_max = in_min \<longrightarrow> map_long x in_min in_max out_min out_max = Inl DivisionByZero)
   \<and> (map_long x in_min in_max out_min out_max = Inr r \<longrightarrow> in_max \<noteq> in_min)"
proof (intro conjI impI)
  assume "in_max \<noteq> in_min"
  then show "map_long x in_min in_max out_min out_max \<noteq> Inl DivisionByZero"
    by (simp add: map_long_DivisionByZero_iff)
next
  assume "in_max = in_min"
  then show "map_long x in_min in_max out_min out_max = Inl DivisionByZero"
    by (simp only: map_long_DivisionByZero_iff)
next
  assume "map_long x in_min in_max out_min out_max = Inr r"
  then have "\<exists>r. map_long x in_min in_max out_min out_max = Inr r"
    by blast
  then show "in_max \<noteq> in_min"
    using map_long_returns_iff by blast
qed

text \<open>
  The same on the range from 0 to 10, where \<^verbatim>\<open>map\<close> returns 50 for 5; on the empty range
  from 3 to 3; and on the range from 0 to \<open>-1\<close> at the least \<^verbatim>\<open>long\<close>, where the range is
  not empty and the failure is the missing quotient, not a division by zero.
\<close>

theorem map_defined_only_if_range_not_empty_witness:
  "(10 :: long) \<noteq> 0
   \<and> map_long 5 0 10 0 100 \<noteq> Inl DivisionByZero
   \<and> map_long 5 0 10 0 100 = Inr 50
   \<and> map_long 5 3 3 0 100 = Inl DivisionByZero
   \<and> (- 1 :: long) \<noteq> 0
   \<and> map_long (- 2147483648) 0 (- 1) 0 1 \<noteq> Inl DivisionByZero
   \<and> map_long (- 2147483648) 0 (- 1) 0 1 = Inl QuotientOverflow"
proof -
  have differ: "(10 :: long) \<noteq> 0" and differ': "(- 1 :: long) \<noteq> 0"
    by simp_all
  have run: "map_long 5 0 10 0 100 = Inr 50"
    and trap: "map_long (- 2147483648) 0 (- 1) 0 1 = Inl QuotientOverflow"
    by (simp_all add: map_long_def div_long_def)
  from differ differ' run trap
    map_defined_only_if_range_not_empty [of 10 0 5 0 100 50]
    map_defined_only_if_range_not_empty [of 3 3 5 0 100]
    map_defined_only_if_range_not_empty [of "- 1" 0 "- 2147483648" 0 1]
  show ?thesis
    by (simp only: simp_thms)
qed

end
